theory Spec2Isabelle
  imports Main "HOL-Library.AList" "HOL-Library.Sublist"
begin

section \<open>Dataset ingredients of schnetpack: property maps and dataset dispatch\<close>

text \<open>
  The development embeds \<^verbatim>\<open>src/schnetpack/sacred/dataset_ingredients.py\<close>.
  A Python \<^verbatim>\<open>str\<close> is a \<^typ>\<open>string\<close>; the separators and the literals the
  module compares with are ASCII. A Python \<^verbatim>\<open>dict\<close> with string keys and values is an
  association list in insertion order, read with \<^const>\<open>map_of\<close> and written with
  \<^const>\<open>AList.update\<close> (an assignment to a key already present keeps the key's position,
  a new key is appended), which is what a Python dict does. Exceptions are values of
  \<open>error\<close> on the left of a sum.
\<close>

subsection \<open>Exceptions\<close>

datatype error =
    AtomsDataError string   \<comment> \<open>\<^verbatim>\<open>schnetpack.data.AtomsDataError\<close> with its message\<close>
  | ValueError              \<comment> \<open>raised by the unpacking \<^verbatim>\<open>key, value = ...\<close>\<close>
  | NotImplementedError
  | MissingConfig string    \<comment> \<open>a captured function finds no configuration entry for a parameter\<close>

subsection \<open>Built-in string operations\<close>

text \<open>\<^verbatim>\<open>s.split(sep)\<close> for a one-character separator: every occurrence splits, and the
  result has one more element than there are separators (so the empty string gives
  \<^verbatim>\<open>['']\<close>).\<close>

fun split :: "char \<Rightarrow> string \<Rightarrow> string list" where
  "split sep [] = [[]]"
| "split sep (c # cs) =
     (let ws = split sep cs
      in if c = sep then [] # ws else (c # hd ws) # tl ws)"

text \<open>\<^verbatim>\<open>s.upper()\<close> on ASCII text: the letters a to z (codes 97 to 122) move down by
  32, every other character stays. The builtin works on Unicode text and does more
  outside ASCII (it changes accented letters and may change the length), so
  \<open>upper\<close> stands for it on ASCII strings only; the dispatcher below takes the
  uppercasing as an argument.\<close>

definition upper_char :: "char \<Rightarrow> char" where
  "upper_char c =
     (let n = (of_char c :: nat)
      in if 97 \<le> n \<and> n \<le> 122 then char_of (n - 32) else c)"

definition upper :: "string \<Rightarrow> string" where
  "upper s = map upper_char s"

text \<open>\<^verbatim>\<open>p.rfind(c)\<close>: the greatest index of \<open>c\<close> in \<open>p\<close>, or \<open>-1\<close>.\<close>

definition rfind :: "string \<Rightarrow> char \<Rightarrow> int" where
  "rfind p c =
     (case List.find (\<lambda>i. p ! i = c) (rev [0..<length p]) of
        None \<Rightarrow> - 1
      | Some i \<Rightarrow> int i)"

text \<open>\<^verbatim>\<open>os.path.splitext\<close> of the POSIX path module
  (\<^verbatim>\<open>genericpath._splitext(p, '/', None, '.')\<close>): the extension starts at the last dot,
  provided that dot comes after the last slash and some character between the slash and
  the dot is not a dot (leading dots of the file name do not start an extension).
  The source's \<^verbatim>\<open>while\<close> loop over \<^verbatim>\<open>filenameIndex\<close> is the search over the index
  range.\<close>

definition splitext :: "string \<Rightarrow> string \<times> string" where
  "splitext p =
     (let sepIndex = rfind p (CHR ''/'');
          dotIndex = rfind p (CHR ''.'')
      in if dotIndex > sepIndex \<and>
            list_ex (\<lambda>i. p ! i \<noteq> CHR ''.'') [nat (sepIndex + 1)..<nat dotIndex]
         then (take (nat dotIndex) p, drop (nat dotIndex) p)
         else (p, []))"

subsection \<open>\<^verbatim>\<open>get_property_map\<close>\<close>

type_synonym dict = "(string \<times> string) list"

text \<open>The argument \<^verbatim>\<open>property_mapping\<close> is a \<^verbatim>\<open>str\<close> or a \<^verbatim>\<open>dict\<close>.\<close>

datatype property_mapping = MapStr string | MapDict dict

text \<open>The target \<^verbatim>\<open>key, value\<close> of the comprehension takes a list of exactly two
  elements; any other length raises \<^verbatim>\<open>ValueError\<close>.\<close>

fun unpack_key_value :: "string list \<Rightarrow> error + (string \<times> string)" where
  "unpack_key_value [key, val] = Inr (key, val)"
| "unpack_key_value _ = Inl ValueError"

text \<open>\<^verbatim>\<open>{key: value for key, value in entries}\<close>, the dict built so far as accumulator.\<close>

fun dict_comprehension :: "string list list \<Rightarrow> dict \<Rightarrow> error + dict" where
  "dict_comprehension [] d = Inr d"
| "dict_comprehension (e # es) d =
     (case unpack_key_value e of
        Inl err \<Rightarrow> Inl err
      | Inr (key, val) \<Rightarrow> dict_comprehension es (AList.update key val d))"

text \<open>Lines 93 to 96: a string is split on commas, each entry on colons, and the
  entries are collected into a dict; a dict is taken as it is.\<close>

definition parse_property_mapping :: "string \<Rightarrow> error + dict" where
  "parse_property_mapping s =
     dict_comprehension (map (split (CHR '':'')) (split (CHR '','') s)) []"

fun normalise_mapping :: "property_mapping \<Rightarrow> error + dict" where
  "normalise_mapping (MapStr s) = parse_property_mapping s"
| "normalise_mapping (MapDict d) = Inr d"

text \<open>The message of lines 102 to 104:
  \<^verbatim>\<open>'"{}" is not a valid property that is contained in the property_mapping for the database located ad {}.'.format(prop, dbpath)\<close>.\<close>

definition missing_property_message :: "string \<Rightarrow> string \<Rightarrow> string" where
  "missing_property_message prop dbpath =
     [CHR 0x22] @ prop @ [CHR 0x22] @
     '' is not a valid property that is contained in the property_mapping for the database located ad '' @
     dbpath @ ''.''"

text \<open>The loop of lines 98 to 104 over \<^verbatim>\<open>properties\<close>, with \<^verbatim>\<open>property_map\<close> as
  accumulator. \<^verbatim>\<open>prop in property_mapping.keys()\<close> holds exactly when the lookup finds
  a value.\<close>

fun collect_properties :: "string list \<Rightarrow> dict \<Rightarrow> string \<Rightarrow> dict \<Rightarrow> error + dict" where
  "collect_properties [] property_mapping dbpath property_map = Inr property_map"
| "collect_properties (prop # props) property_mapping dbpath property_map =
     (case map_of property_mapping prop of
        Some v \<Rightarrow>
          collect_properties props property_mapping dbpath (AList.update prop v property_map)
      | None \<Rightarrow> Inl (AtomsDataError (missing_property_message prop dbpath)))"

definition get_property_map :: "string list \<Rightarrow> property_mapping \<Rightarrow> string \<Rightarrow> error + dict" where
  "get_property_map properties property_mapping dbpath =
     (case normalise_mapping property_mapping of
        Inl err \<Rightarrow> Inl err
      | Inr m \<Rightarrow> collect_properties properties m dbpath [])"

subsection \<open>\<^verbatim>\<open>get_dataset\<close>\<close>

text \<open>The dataset classes and the converter live outside this module. A dataset object
  is the constructor call that made it, with the arguments it was given; the float
  \<^verbatim>\<open>cutoff\<close> is only handed on, so its type is a parameter.\<close>

datatype 'f dataset_object =
    QM9 string "string list option"                   \<comment> \<open>\<^verbatim>\<open>QM9(dbpath, properties=...)\<close>\<close>
  | ISO17 string string "string list option"          \<comment> \<open>\<^verbatim>\<open>ISO17(dbpath, fold, properties=...)\<close>\<close>
  | ANI1 string int "string list option"              \<comment> \<open>\<^verbatim>\<open>ANI1(dbpath, num_heavy_atoms=..., properties=...)\<close>\<close>
  | MD17 string string "string list option"           \<comment> \<open>\<^verbatim>\<open>MD17(dbpath, molecule=..., properties=...)\<close>\<close>
  | MaterialsProject string 'f string "string list option"
  | AtomsData string "string list option"             \<comment> \<open>\<^verbatim>\<open>AtomsData(dbpath, required_properties=...)\<close>\<close>

text \<open>What a call does before it returns or raises, in order: the log line and the
  conversion \<^verbatim>\<open>ext_xyz_to_db(dbpath=..., xyzpath=...)\<close>. The returned constructor call is
  evaluated after them.\<close>

datatype effect =
    LogInfo string
  | ExtXyzToDb string string   \<comment> \<open>first \<^verbatim>\<open>dbpath\<close> (the target), then \<^verbatim>\<open>xyzpath\<close>\<close>

text \<open>The configuration of the ingredient. \<^verbatim>\<open>cfg\<close> always sets \<^verbatim>\<open>dbpath\<close>; the
  other entries exist only in the named configurations that set them.\<close>

record 'f config =
  cfg_dbpath :: string
  cfg_fold :: "string option"
  cfg_num_heavy_atoms :: "int option"
  cfg_molecule :: "string option"
  cfg_cutoff :: "'f option"
  cfg_api_key :: "string option"

text \<open>The getters of lines 108 to 168, each the constructor call it returns.\<close>

definition get_ani1 :: "string \<Rightarrow> int \<Rightarrow> string list option \<Rightarrow> 'f dataset_object" where
  "get_ani1 dbpath num_heavy_atoms dataset_properties =
     ANI1 dbpath num_heavy_atoms dataset_properties"

definition get_matproj ::
  "string \<Rightarrow> 'f \<Rightarrow> string \<Rightarrow> string list option \<Rightarrow> 'f dataset_object" where
  "get_matproj dbpath cutoff api_key dataset_properties =
     MaterialsProject dbpath cutoff api_key dataset_properties"

definition get_iso17 :: "string \<Rightarrow> string \<Rightarrow> string list option \<Rightarrow> 'f dataset_object" where
  "get_iso17 dbpath fold_name dataset_properties = ISO17 dbpath fold_name dataset_properties"

definition get_md17 :: "string \<Rightarrow> string \<Rightarrow> string list option \<Rightarrow> 'f dataset_object" where
  "get_md17 dbpath molecule dataset_properties = MD17 dbpath molecule dataset_properties"

text \<open>The getters are captured functions and \<^verbatim>\<open>get_dataset\<close> calls each with
  \<^verbatim>\<open>dataset_properties\<close> only: every other parameter is filled in from the
  configuration, and the call raises when the configuration has no entry of that
  name.\<close>

definition from_config :: "string \<Rightarrow> 'a option \<Rightarrow> ('a \<Rightarrow> error + 'b) \<Rightarrow> error + 'b" where
  "from_config name entry call =
     (case entry of None \<Rightarrow> Inl (MissingConfig name) | Some v \<Rightarrow> call v)"

text \<open>Lines 185 to 207, with the builtin \<^verbatim>\<open>str.upper\<close> as the argument
  \<open>str_upper\<close>: any function from strings to strings, so also one that changes
  letters outside ASCII or the length of the string.\<close>

definition get_dataset_with ::
  "(string \<Rightarrow> string) \<Rightarrow> 'f config \<Rightarrow> string \<Rightarrow> string \<Rightarrow> string list option \<Rightarrow>
     effect list \<times> (error + 'f dataset_object)" where
  "get_dataset_with str_upper cfg dbpath dataset dataset_properties =
     (let dataset = str_upper dataset;
          log = [LogInfo (''Load '' @ dataset @ '' dataset'')]
      in if dataset = ''QM9'' then (log, Inr (QM9 dbpath dataset_properties))
         else if dataset = ''ISO17'' then
           (log, from_config ''fold'' (cfg_fold cfg) (\<lambda>fold_name.
                   Inr (get_iso17 (cfg_dbpath cfg) fold_name dataset_properties)))
         else if dataset = ''ANI1'' then
           (log, from_config ''num_heavy_atoms'' (cfg_num_heavy_atoms cfg) (\<lambda>num_heavy_atoms.
                   Inr (get_ani1 (cfg_dbpath cfg) num_heavy_atoms dataset_properties)))
         else if dataset = ''MD17'' then
           (log, from_config ''molecule'' (cfg_molecule cfg) (\<lambda>molecule.
                   Inr (get_md17 (cfg_dbpath cfg) molecule dataset_properties)))
         else if dataset = ''MATPROJ'' then
           (log, from_config ''cutoff'' (cfg_cutoff cfg) (\<lambda>cutoff.
                   from_config ''api_key'' (cfg_api_key cfg) (\<lambda>api_key.
                     Inr (get_matproj (cfg_dbpath cfg) cutoff api_key dataset_properties))))
         else if dataset = ''CUSTOM'' then
           (case splitext dbpath of
              (file, extension) \<Rightarrow>
                if extension = ''.db'' then (log, Inr (AtomsData dbpath dataset_properties))
                else if extension = ''.xyz'' then
                  (log @ [ExtXyzToDb (file @ ''.db'') dbpath],
                   Inr (AtomsData (file @ ''.db'') dataset_properties))
                else (log, Inl NotImplementedError))
         else (log, Inl NotImplementedError))"

text \<open>\<^verbatim>\<open>get_dataset\<close> on ASCII tags.\<close>

definition get_dataset ::
  "'f config \<Rightarrow> string \<Rightarrow> string \<Rightarrow> string list option \<Rightarrow>
     effect list \<times> (error + 'f dataset_object)" where
  "get_dataset cfg dbpath dataset dataset_properties =
     get_dataset_with upper cfg dbpath dataset dataset_properties"

text \<open>The named configuration \<^verbatim>\<open>custom\<close> (lines 20 to 25) over the base configuration:
  it sets \<^verbatim>\<open>dbpath\<close> and \<^verbatim>\<open>fold\<close> and none of the other kind-specific entries.\<close>

definition custom :: "'f config" where
  "custom =
     \<lparr>cfg_dbpath = ''./data/iso17/reference_eq.db'',
      cfg_fold = Some ''reference'',
      cfg_num_heavy_atoms = None,
      cfg_molecule = None,
      cfg_cutoff = None,
      cfg_api_key = None\<rparr>"


section \<open>Properties\<close>

subsection \<open>Strings\<close>

lemma upper_char_other:
  "\<not> (97 \<le> (of_char c :: nat) \<and> (of_char c :: nat) \<le> 122) \<Longrightarrow> upper_char c = c"
  unfolding upper_char_def Let_def by (rule if_not_P)

lemma upper_char_letter:
  "97 \<le> (of_char c :: nat) \<and> (of_char c :: nat) \<le> 122 \<Longrightarrow>
     upper_char c = char_of (of_char c - 32 :: nat)"
  unfolding upper_char_def Let_def by (rule if_P)

lemma upper_char_idem: "upper_char (upper_char c) = upper_char c"
proof (cases "97 \<le> (of_char c :: nat) \<and> (of_char c :: nat) \<le> 122")
  case True
  define u where "u = char_of (of_char c - 32 :: nat)"
  from True have "(of_char c :: nat) - 32 < 256"
    by linarith
  then have "(of_char u :: nat) = of_char c - 32"
    by (simp add: u_def)
  with True have "\<not> (97 \<le> (of_char u :: nat) \<and> (of_char u :: nat) \<le> 122)"
    by linarith
  then have "upper_char u = u"
    by (rule upper_char_other)
  moreover from True have "upper_char c = u"
    unfolding u_def by (rule upper_char_letter)
  ultimately show ?thesis
    by simp
next
  case False
  then show ?thesis
    by (simp add: upper_char_other)
qed

lemma upper_idem: "upper (upper s) = upper s"
  by (simp add: upper_def upper_char_idem)

lemma splitext_append: "fst (splitext p) @ snd (splitext p) = p"
  by (simp add: splitext_def Let_def)

lemma find_rev_upt_Some:
  "List.find P (rev [0..<n]) = Some k \<longleftrightarrow>
     k < n \<and> P k \<and> (\<forall>j. k < j \<and> j < n \<longrightarrow> \<not> P j)"
proof (induction n)
  case 0
  then show ?case by simp
next
  case (Suc n)
  show ?case
  proof (cases "P n")
    case True
    then show ?thesis
      by (auto simp: less_Suc_eq)
  next
    case False
    then show ?thesis
      using Suc by (auto simp: less_Suc_eq)
  qed
qed

lemma rfind_last:
  assumes "c \<notin> set ys"
  shows "rfind (xs @ c # ys) c = int (length xs)"
proof -
  have "List.find (\<lambda>i. (xs @ c # ys) ! i = c) (rev [0..<length (xs @ c # ys)]) = Some (length xs)"
    unfolding find_rev_upt_Some using assms
    by (auto simp: nth_append nth_Cons split: nat.splits)
  then show ?thesis
    by (simp add: rfind_def)
qed

lemma rfind_less:
  assumes "c \<notin> set ys"
  shows "rfind (xs @ ys) c < int (length xs)"
proof (cases "List.find (\<lambda>i. (xs @ ys) ! i = c) (rev [0..<length (xs @ ys)])")
  case None
  then show ?thesis
    by (simp add: rfind_def)
next
  case (Some k)
  then have "k < length (xs @ ys)" and "(xs @ ys) ! k = c"
    unfolding find_rev_upt_Some by simp_all
  with assms have "k < length xs"
    by (cases "k < length xs") (auto simp: nth_append)
  with Some show ?thesis
    by (simp add: rfind_def)
qed

text \<open>The extension of an ordinary file name: when the last path component \<open>name\<close>
  has a character other than a dot, and \<open>ext\<close> has neither dot nor slash, the path
  \<open>dir\<close>, \<open>name\<close>, dot, \<open>ext\<close> splits before that dot.\<close>

lemma splitext_name_ext:
  assumes name: "CHR ''/'' \<notin> set name" "c \<in> set name" "c \<noteq> CHR ''.''"
    and ext: "CHR ''.'' \<notin> set ext" "CHR ''/'' \<notin> set ext"
  shows "splitext (dir @ name @ CHR ''.'' # ext) = (dir @ name, CHR ''.'' # ext)"
proof -
  let ?p = "dir @ name @ CHR ''.'' # ext"
  have dot: "rfind ?p (CHR ''.'') = int (length dir + length name)"
    using rfind_last [OF ext(1), of "dir @ name"] by simp
  then have ndot: "nat (rfind ?p (CHR ''.'')) = length dir + length name"
    by simp
  have "CHR ''/'' \<notin> set (name @ CHR ''.'' # ext)"
    using name(1) ext(2) by simp
  then have sep: "rfind ?p (CHR ''/'') < int (length dir)"
    by (rule rfind_less)
  from name(2) obtain j where j: "j < length name" "name ! j = c"
    by (auto simp: in_set_conv_nth)
  have "?p ! (length dir + j) = c"
    using j by (simp add: nth_append)
  moreover have "nat (rfind ?p (CHR ''/'') + 1) \<le> length dir + j"
    using sep by linarith
  moreover have "length dir + j < length dir + length name"
    using j by simp
  ultimately have "\<exists>i\<in>set [nat (rfind ?p (CHR ''/'') + 1)..<length dir + length name].
      ?p ! i \<noteq> CHR ''.''"
    using name(3) by (intro bexI [of _ "length dir + j"]) simp_all
  then have ex: "list_ex (\<lambda>i. ?p ! i \<noteq> CHR ''.'')
      [nat (rfind ?p (CHR ''/'') + 1)..<nat (rfind ?p (CHR ''.''))]"
    unfolding list_ex_iff ndot by simp
  have gt: "rfind ?p (CHR ''.'') > rfind ?p (CHR ''/'')"
    using sep dot by linarith
  show ?thesis
    unfolding splitext_def Let_def using ex gt by (simp add: ndot)
qed

lemma upper_CUSTOM: "upper ''CUSTOM'' = ''CUSTOM''"
  by (simp add: upper_def upper_char_def)

lemma upper_QM9: "upper ''QM9'' = ''QM9''"
  by (simp add: upper_def upper_char_def)

lemma length_upper: "length (upper s) = length s"
  by (simp add: upper_def)

lemma split_not_Nil: "split sep s \<noteq> []"
  by (induction s) (simp_all add: Let_def)

lemma length_split: "length (split sep s) = Suc (count_list s sep)"
  by (induction s) (simp_all add: Let_def split_not_Nil)

lemma split_no_sep: "sep \<notin> set s \<Longrightarrow> split sep s = [s]"
  by (induction s) (auto simp: Let_def)

lemma concat_split: "concat (map (\<lambda>w. sep # w) (split sep s)) = sep # s"
proof (induction s)
  case Nil
  then show ?case by simp
next
  case (Cons c cs)
  then show ?case
    using split_not_Nil [of sep cs]
    by (cases "split sep cs") (simp_all add: Let_def)
qed

lemma split_entries_no_sep: "w \<in> set (split sep s) \<Longrightarrow> sep \<notin> set w"
proof (induction s arbitrary: w)
  case Nil
  then show ?case by simp
next
  case (Cons c cs)
  then show ?case
    using split_not_Nil [of sep cs]
    by (cases "split sep cs") (auto simp: Let_def split: if_splits)
qed

subsection \<open>Property maps\<close>

lemma collect_properties_ok:
  "set P \<subseteq> fst ` set M \<Longrightarrow>
   \<exists>r. collect_properties P M dbpath acc = Inr r \<and>
       fst ` set r = set P \<union> fst ` set acc \<and>
       (\<forall>p. map_of r p = (if p \<in> set P then map_of M p else map_of acc p)) \<and>
       (distinct (map fst acc) \<longrightarrow> distinct (map fst r))"
proof (induction P arbitrary: acc)
  case Nil
  then show ?case by simp
next
  case (Cons p P)
  from Cons.prems have "p \<in> fst ` set M" and sub: "set P \<subseteq> fst ` set M"
    by simp_all
  then obtain v where v: "map_of M p = Some v"
    by (metis map_of_eq_None_iff not_Some_eq)
  from Cons.IH [OF sub, of "AList.update p v acc"]
  obtain r where r: "collect_properties P M dbpath (AList.update p v acc) = Inr r"
    and keys: "fst ` set r = set P \<union> fst ` set (AList.update p v acc)"
    and vals: "\<forall>q. map_of r q = (if q \<in> set P then map_of M q else map_of (AList.update p v acc) q)"
    and dist: "distinct (map fst (AList.update p v acc)) \<longrightarrow> distinct (map fst r)"
    by blast
  have "collect_properties (p # P) M dbpath acc = Inr r"
    by (simp add: v r)
  moreover have "fst ` set r = set (p # P) \<union> fst ` set acc"
    by (simp add: keys dom_update)
  moreover have "\<forall>q. map_of r q = (if q \<in> set (p # P) then map_of M q else map_of acc q)"
    by (simp add: vals update_conv' v)
  moreover have "distinct (map fst acc) \<longrightarrow> distinct (map fst r)"
    using dist by (simp add: distinct_update)
  ultimately show ?case
    by blast
qed

lemma collect_properties_empty:
  assumes "set P \<subseteq> fst ` set M"
  shows "\<exists>r. collect_properties P M dbpath [] = Inr r \<and>
           fst ` set r = set P \<and> (\<forall>p\<in>set P. map_of r p = map_of M p)"
  using collect_properties_ok [OF assms, of dbpath "[]"] by auto

lemma collect_properties_missing:
  "set pre \<subseteq> fst ` set M \<Longrightarrow> p \<notin> fst ` set M \<Longrightarrow>
   collect_properties (pre @ p # suf) M dbpath acc =
     Inl (AtomsDataError (missing_property_message p dbpath))"
proof (induction pre arbitrary: acc)
  case Nil
  then have "map_of M p = None"
    by (simp add: map_of_eq_None_iff)
  then show ?case
    by simp
next
  case (Cons q pre)
  from Cons.prems have "q \<in> fst ` set M"
    by simp
  then obtain v where "map_of M q = Some v"
    by (metis map_of_eq_None_iff not_Some_eq)
  with Cons show ?case
    by simp
qed

lemma first_missing_split:
  assumes "\<not> set P \<subseteq> K"
  shows "\<exists>pre p suf. P = pre @ p # suf \<and> set pre \<subseteq> K \<and> p \<notin> K"
proof -
  from assms have "\<exists>x\<in>set P. x \<notin> K"
    by blast
  then obtain pre p suf where P: "P = pre @ p # suf" and p: "p \<notin> K"
    and pre: "\<forall>y\<in>set pre. \<not> y \<notin> K"
    by (rule split_list_first_propE)
  from pre have "set pre \<subseteq> K"
    by blast
  with P p show ?thesis
    by blast
qed

text \<open>Claim C1. For a mapping given as a dict: when every requested property is a key
  of the mapping, \<^verbatim>\<open>get_property_map\<close> returns a dict whose keys are exactly the
  requested properties, each with the value the mapping gives it; when some requested
  property is not a key of the mapping, the call fails.\<close>

theorem get_property_map_dict:
  "(set P \<subseteq> fst ` set M \<longrightarrow>
      (\<exists>r. get_property_map P (MapDict M) dbpath = Inr r \<and>
           fst ` set r = set P \<and>
           (\<forall>p\<in>set P. map_of r p = map_of M p))) \<and>
   (\<not> set P \<subseteq> fst ` set M \<longrightarrow>
      (\<exists>e. get_property_map P (MapDict M) dbpath = Inl e))"
proof (intro conjI impI)
  assume "set P \<subseteq> fst ` set M"
  then show "\<exists>r. get_property_map P (MapDict M) dbpath = Inr r \<and>
           fst ` set r = set P \<and> (\<forall>p\<in>set P. map_of r p = map_of M p)"
    using collect_properties_empty [of P M dbpath] by (simp add: get_property_map_def)
next
  assume "\<not> set P \<subseteq> fst ` set M"
  then obtain pre p suf where "P = pre @ p # suf" "set pre \<subseteq> fst ` set M" "p \<notin> fst ` set M"
    using first_missing_split [of P "fst ` set M"] by blast
  then have "get_property_map P (MapDict M) dbpath =
      Inl (AtomsDataError (missing_property_message p dbpath))"
    by (simp add: get_property_map_def collect_properties_missing)
  then show "\<exists>e. get_property_map P (MapDict M) dbpath = Inl e"
    by blast
qed

theorem get_property_map_dict_witness:
  "set [''energy'', ''forces''] \<subseteq>
     fst ` set [(''energy'', ''E''), (''forces'', ''F''), (''dipole_moment'', ''mu'')] \<and>
   get_property_map [''energy'', ''forces'']
     (MapDict [(''energy'', ''E''), (''forces'', ''F''), (''dipole_moment'', ''mu'')]) ''qm9.db'' =
     Inr [(''energy'', ''E''), (''forces'', ''F'')] \<and>
   \<not> set [''energy'', ''stress''] \<subseteq>
     fst ` set [(''energy'', ''E''), (''forces'', ''F''), (''dipole_moment'', ''mu'')] \<and>
   get_property_map [''energy'', ''stress'']
     (MapDict [(''energy'', ''E''), (''forces'', ''F''), (''dipole_moment'', ''mu'')]) ''qm9.db'' =
     Inl (AtomsDataError (missing_property_message ''stress'' ''qm9.db''))"
  using get_property_map_dict [of "[''energy'', ''forces'']"
          "[(''energy'', ''E''), (''forces'', ''F''), (''dipole_moment'', ''mu'')]" "''qm9.db''"]
        get_property_map_dict [of "[''energy'', ''stress'']"
          "[(''energy'', ''E''), (''forces'', ''F''), (''dipole_moment'', ''mu'')]" "''qm9.db''"]
  by (simp add: get_property_map_def)

text \<open>Claim C6. When the requested list is \<open>pre\<close>, then \<open>p\<close>, then \<open>suf\<close>, with all
  of \<open>pre\<close> in the mapping and \<open>p\<close> not in it, so that \<open>p\<close> is the first missing
  property in list order, \<^verbatim>\<open>get_property_map\<close> raises \<^verbatim>\<open>AtomsDataError\<close> with the
  message built for \<open>p\<close> and \<^verbatim>\<open>dbpath\<close>, and both \<open>p\<close> and \<^verbatim>\<open>dbpath\<close> occur in
  that message.\<close>

theorem get_property_map_first_missing:
  assumes "normalise_mapping property_mapping = Inr M"
    and "P = pre @ p # suf"
    and "set pre \<subseteq> fst ` set M"
    and "p \<notin> fst ` set M"
  shows "get_property_map P property_mapping dbpath =
           Inl (AtomsDataError (missing_property_message p dbpath)) \<and>
         sublist p (missing_property_message p dbpath) \<and>
         sublist dbpath (missing_property_message p dbpath)"
proof (intro conjI)
  show "get_property_map P property_mapping dbpath =
           Inl (AtomsDataError (missing_property_message p dbpath))"
    using assms by (simp add: get_property_map_def collect_properties_missing)
  show "sublist p (missing_property_message p dbpath)"
    unfolding missing_property_message_def by (rule sublist_appendI)
  have "sublist dbpath (([CHR 0x22] @ p @ [CHR 0x22] @
     '' is not a valid property that is contained in the property_mapping for the database located ad '') @
     dbpath @ ''.'')"
    by (rule sublist_appendI)
  then show "sublist dbpath (missing_property_message p dbpath)"
    by (simp add: missing_property_message_def)
qed

theorem get_property_map_first_missing_witness:
  "normalise_mapping (MapStr ''energy:E,forces:F'') = Inr [(''energy'', ''E''), (''forces'', ''F'')] \<and>
   [''forces'', ''stress'', ''energy'', ''charge''] = [''forces''] @ ''stress'' # [''energy'', ''charge''] \<and>
   set [''forces''] \<subseteq> fst ` set [(''energy'', ''E''), (''forces'', ''F'')] \<and>
   ''stress'' \<notin> fst ` set [(''energy'', ''E''), (''forces'', ''F'')] \<and>
   get_property_map [''forces'', ''stress'', ''energy'', ''charge''] (MapStr ''energy:E,forces:F'') ''data/qm9.db'' =
     Inl (AtomsDataError (missing_property_message ''stress'' ''data/qm9.db'')) \<and>
   sublist ''stress'' (missing_property_message ''stress'' ''data/qm9.db'') \<and>
   sublist ''data/qm9.db'' (missing_property_message ''stress'' ''data/qm9.db'')"
proof -
  have n: "normalise_mapping (MapStr ''energy:E,forces:F'') = Inr [(''energy'', ''E''), (''forces'', ''F'')]"
    by (simp add: parse_property_mapping_def)
  have l: "[''forces'', ''stress'', ''energy'', ''charge''] = [''forces''] @ ''stress'' # [''energy'', ''charge'']"
    by simp
  have s: "set [''forces''] \<subseteq> fst ` set [(''energy'', ''E''), (''forces'', ''F'')]"
    by simp
  have m: "''stress'' \<notin> fst ` set [(''energy'', ''E''), (''forces'', ''F'')]"
    by simp
  show ?thesis
    using n l s m get_property_map_first_missing [OF n l s m, of "''data/qm9.db''"]
    by simp
qed

lemma unpack_key_value_two:
  "length ws = 2 \<Longrightarrow> unpack_key_value ws = Inr (hd ws, last ws)"
  by (cases ws rule: unpack_key_value.cases) simp_all

lemma unpack_key_value_other:
  "length ws \<noteq> 2 \<Longrightarrow> unpack_key_value ws = Inl ValueError"
  by (cases ws rule: unpack_key_value.cases) simp_all

lemma dict_comprehension_fails:
  "\<exists>e\<in>set es. length e \<noteq> 2 \<Longrightarrow> dict_comprehension es d = Inl ValueError"
proof (induction es arbitrary: d)
  case Nil
  then show ?case by simp
next
  case (Cons e es)
  then show ?case
    by (cases "length e = 2") (simp_all add: unpack_key_value_two unpack_key_value_other)
qed

lemma dict_comprehension_ok:
  "\<forall>e\<in>set es. length e = 2 \<Longrightarrow>
   \<exists>r. dict_comprehension es d = Inr r \<and>
       map_of r = map_of (rev (map (\<lambda>e. (hd e, last e)) es) @ d)"
proof (induction es arbitrary: d)
  case Nil
  then show ?case by simp
next
  case (Cons e es)
  then have len: "length e = 2" and rest: "\<forall>e\<in>set es. length e = 2"
    by simp_all
  from Cons.IH [OF rest, of "AList.update (hd e) (last e) d"]
  obtain r where r: "dict_comprehension es (AList.update (hd e) (last e) d) = Inr r"
    and m: "map_of r = map_of (rev (map (\<lambda>e. (hd e, last e)) es) @ AList.update (hd e) (last e) d)"
    by blast
  have "dict_comprehension (e # es) d = Inr r"
    by (simp add: unpack_key_value_two len r)
  moreover have "map_of r = map_of (rev (map (\<lambda>e. (hd e, last e)) (e # es)) @ d)"
    by (simp add: m update_conv' map_add_def fun_eq_iff split: option.splits)
  ultimately show ?case
    by blast
qed

lemma split_one_sep:
  "count_list e sep = 1 \<Longrightarrow>
   split sep e = [takeWhile (\<lambda>c. c \<noteq> sep) e, tl (dropWhile (\<lambda>c. c \<noteq> sep) e)]"
  by (induction e) (auto simp: Let_def split_no_sep count_list_0_iff)

lemma parse_property_mapping_fails:
  assumes "\<exists>e\<in>set (split (CHR '','') s). count_list e (CHR '':'') \<noteq> 1"
  shows "parse_property_mapping s = Inl ValueError"
proof -
  from assms have "\<exists>ws\<in>set (map (split (CHR '':'')) (split (CHR '','') s)). length ws \<noteq> 2"
    by (auto simp: length_split)
  then show ?thesis
    unfolding parse_property_mapping_def by (rule dict_comprehension_fails)
qed

lemma parse_property_mapping_ok:
  assumes "\<forall>e\<in>set (split (CHR '','') s). count_list e (CHR '':'') = 1"
  shows "\<exists>d. parse_property_mapping s = Inr d \<and>
           map_of d =
             map_of (rev (map (\<lambda>e. (takeWhile (\<lambda>c. c \<noteq> CHR '':'') e,
                                      tl (dropWhile (\<lambda>c. c \<noteq> CHR '':'') e)))
                           (split (CHR '','') s)))"
proof -
  let ?es = "map (split (CHR '':'')) (split (CHR '','') s)"
  from assms have "\<forall>ws\<in>set ?es. length ws = 2"
    by (auto simp: length_split)
  from dict_comprehension_ok [OF this, of "[]"]
  obtain d where d: "dict_comprehension ?es [] = Inr d"
    and m: "map_of d = map_of (rev (map (\<lambda>e. (hd e, last e)) ?es) @ [])"
    by blast
  have eq: "map (\<lambda>e. (hd e, last e)) ?es =
        map (\<lambda>e. (takeWhile (\<lambda>c. c \<noteq> CHR '':'') e, tl (dropWhile (\<lambda>c. c \<noteq> CHR '':'') e)))
          (split (CHR '','') s)"
    unfolding map_map by (rule map_cong) (simp_all add: assms split_one_sep)
  from m have "map_of d =
             map_of (rev (map (\<lambda>e. (takeWhile (\<lambda>c. c \<noteq> CHR '':'') e,
                                      tl (dropWhile (\<lambda>c. c \<noteq> CHR '':'') e)))
                           (split (CHR '','') s)))"
    unfolding eq by simp
  moreover from d have "parse_property_mapping s = Inr d"
    by (simp add: parse_property_mapping_def)
  ultimately show ?thesis
    by blast
qed

text \<open>Claim C2 as stated does not hold: \<^verbatim>\<open>split(':')\<close> splits at every colon, so the
  entry \<^verbatim>\<open>"energy:col:0"\<close> gives three parts and is not parsed into the key
  \<^verbatim>\<open>energy\<close> and the value \<^verbatim>\<open>col:0\<close>. The call on the string raises
  \<^verbatim>\<open>ValueError\<close>, while the call on that dict returns.\<close>

theorem get_property_map_first_colon_counterexample:
  "get_property_map [''energy''] (MapStr ''energy:col:0'') ''foo.db'' = Inl ValueError \<and>
   get_property_map [''energy''] (MapDict [(''energy'', ''col:0'')]) ''foo.db'' =
     Inr [(''energy'', ''col:0'')]"
  by (simp add: get_property_map_def parse_property_mapping_def)

text \<open>Claim C2, as amended. When every comma-separated entry of a string-form mapping
  contains exactly one colon, the string parses to a dict that maps the text before
  the colon of an entry to the text after it, a later entry overriding an earlier one
  with the same key, and \<^verbatim>\<open>get_property_map\<close> on the string is
  \<^verbatim>\<open>get_property_map\<close> on that dict. In particular \<^verbatim>\<open>"energy:E,forces:F"\<close> parses to
  the dict of \<^verbatim>\<open>energy\<close> to \<^verbatim>\<open>E\<close> and \<^verbatim>\<open>forces\<close> to \<^verbatim>\<open>F\<close>.\<close>

theorem get_property_map_string_entries:
  "((\<forall>e\<in>set (split (CHR '','') s). count_list e (CHR '':'') = 1) \<longrightarrow>
      (\<exists>d. normalise_mapping (MapStr s) = Inr d \<and>
           map_of d =
             map_of (rev (map (\<lambda>e. (takeWhile (\<lambda>c. c \<noteq> CHR '':'') e,
                                      tl (dropWhile (\<lambda>c. c \<noteq> CHR '':'') e)))
                           (split (CHR '','') s))) \<and>
           get_property_map P (MapStr s) dbpath = get_property_map P (MapDict d) dbpath)) \<and>
   normalise_mapping (MapStr ''energy:E,forces:F'') =
     normalise_mapping (MapDict [(''energy'', ''E''), (''forces'', ''F'')])"
proof (intro conjI impI)
  assume "\<forall>e\<in>set (split (CHR '','') s). count_list e (CHR '':'') = 1"
  from parse_property_mapping_ok [OF this]
  obtain d where d: "parse_property_mapping s = Inr d"
    and m: "map_of d =
             map_of (rev (map (\<lambda>e. (takeWhile (\<lambda>c. c \<noteq> CHR '':'') e,
                                      tl (dropWhile (\<lambda>c. c \<noteq> CHR '':'') e)))
                           (split (CHR '','') s)))"
    by blast
  have "get_property_map P (MapStr s) dbpath = get_property_map P (MapDict d) dbpath"
    by (simp add: get_property_map_def d)
  with d m show "\<exists>d. normalise_mapping (MapStr s) = Inr d \<and>
           map_of d =
             map_of (rev (map (\<lambda>e. (takeWhile (\<lambda>c. c \<noteq> CHR '':'') e,
                                      tl (dropWhile (\<lambda>c. c \<noteq> CHR '':'') e)))
                           (split (CHR '','') s))) \<and>
           get_property_map P (MapStr s) dbpath = get_property_map P (MapDict d) dbpath"
    by simp
next
  show "normalise_mapping (MapStr ''energy:E,forces:F'') =
     normalise_mapping (MapDict [(''energy'', ''E''), (''forces'', ''F'')])"
    by (simp add: parse_property_mapping_def)
qed

theorem get_property_map_string_entries_witness:
  "list_all (\<lambda>e. count_list e (CHR '':'') = 1) (split (CHR '','') ''a:1,b:2,a:3'') \<and>
   normalise_mapping (MapStr ''a:1,b:2,a:3'') = Inr [(''a'', ''3''), (''b'', ''2'')] \<and>
   map_of [(''a'', ''3''), (''b'', ''2'')] = map_of [(''a'', ''3''), (''b'', ''2''), (''a'', ''1'')] \<and>
   get_property_map [''a''] (MapStr ''a:1,b:2,a:3'') ''foo.db'' =
     get_property_map [''a''] (MapDict [(''a'', ''3''), (''b'', ''2'')]) ''foo.db''"
  using get_property_map_string_entries [of "''a:1,b:2,a:3''" "[''a'']" "''foo.db''"]
  by (simp add: parse_property_mapping_def)

text \<open>Claim C10. When some comma-separated entry of a string-form mapping has no colon
  or more than one, \<^verbatim>\<open>get_property_map\<close> raises \<^verbatim>\<open>ValueError\<close> whatever the
  requested properties are, so no property is looked up and no \<^verbatim>\<open>AtomsDataError\<close>
  is raised; when every entry has exactly one colon, the parse returns a dict.\<close>

theorem get_property_map_string_unpacking:
  "((\<exists>e\<in>set (split (CHR '','') s). count_list e (CHR '':'') \<noteq> 1) \<longrightarrow>
      get_property_map P (MapStr s) dbpath = Inl ValueError) \<and>
   ((\<forall>e\<in>set (split (CHR '','') s). count_list e (CHR '':'') = 1) \<longrightarrow>
      (\<exists>d. normalise_mapping (MapStr s) = Inr d))"
proof (intro conjI impI)
  assume "\<exists>e\<in>set (split (CHR '','') s). count_list e (CHR '':'') \<noteq> 1"
  then have "parse_property_mapping s = Inl ValueError"
    by (rule parse_property_mapping_fails)
  then show "get_property_map P (MapStr s) dbpath = Inl ValueError"
    by (simp add: get_property_map_def)
next
  assume "\<forall>e\<in>set (split (CHR '','') s). count_list e (CHR '':'') = 1"
  from parse_property_mapping_ok [OF this]
  show "\<exists>d. normalise_mapping (MapStr s) = Inr d"
    by auto
qed

theorem get_property_map_string_unpacking_witness:
  "list_ex (\<lambda>e. count_list e (CHR '':'') \<noteq> 1) (split (CHR '','') ''energy:E,forces'') \<and>
   get_property_map [''stress''] (MapStr ''energy:E,forces'') ''foo.db'' = Inl ValueError \<and>
   list_ex (\<lambda>e. count_list e (CHR '':'') \<noteq> 1) (split (CHR '','') ''energy:col:0'') \<and>
   get_property_map [''energy''] (MapStr ''energy:col:0'') ''foo.db'' = Inl ValueError \<and>
   list_all (\<lambda>e. count_list e (CHR '':'') = 1) (split (CHR '','') ''energy:E,forces:F'') \<and>
   normalise_mapping (MapStr ''energy:E,forces:F'') =
     Inr [(''energy'', ''E''), (''forces'', ''F'')]"
  using get_property_map_string_unpacking [of "''energy:E,forces''" "[''stress'']" "''foo.db''"]
        get_property_map_string_unpacking [of "''energy:col:0''" "[''energy'']" "''foo.db''"]
        get_property_map_string_unpacking [of "''energy:E,forces:F''" "[]" "''foo.db''"]
  by (simp add: parse_property_mapping_def)

subsection \<open>Dataset dispatch\<close>

lemma splitext_foo_bin: "splitext ''foo.bin'' = (''foo'', ''.bin'')"
  by code_simp

lemma get_dataset_CUSTOM:
  "get_dataset cfg dbpath ''CUSTOM'' dataset_properties =
     (if snd (splitext dbpath) = ''.db''
      then ([LogInfo ''Load CUSTOM dataset''], Inr (AtomsData dbpath dataset_properties))
      else if snd (splitext dbpath) = ''.xyz''
      then ([LogInfo ''Load CUSTOM dataset'',
             ExtXyzToDb (fst (splitext dbpath) @ ''.db'') dbpath],
            Inr (AtomsData (fst (splitext dbpath) @ ''.db'') dataset_properties))
      else ([LogInfo ''Load CUSTOM dataset''], Inl NotImplementedError))"
  by (simp add: get_dataset_def get_dataset_with_def upper_CUSTOM Let_def case_prod_beta)

text \<open>Claim C7. With the tag \<^verbatim>\<open>QM9\<close> the call logs the load and returns the QM9
  dataset built from the given \<^verbatim>\<open>dbpath\<close> and the given property list alone: the
  constructor takes these two arguments, and the result is the same under every
  configuration, so no fold, molecule, heavy-atom count, cutoff or API key reaches it.\<close>

theorem get_dataset_qm9:
  "get_dataset cfg dbpath ''QM9'' dataset_properties =
     ([LogInfo ''Load QM9 dataset''], Inr (QM9 dbpath dataset_properties))"
  by (simp add: get_dataset_def get_dataset_with_def upper_QM9)

text \<open>Claim C8. Dispatch does not depend on the case of the tag: for every uppercasing
  function that leaves the uppercased tag as it is (as \<^verbatim>\<open>str.upper\<close> does), a tag
  and its uppercased form give the same effects and the same result, dataset or
  failure. The uppercasing is arbitrary otherwise, so the tag may hold any
  characters.\<close>

theorem get_dataset_upper:
  "str_upper (str_upper t) = str_upper t \<Longrightarrow>
   get_dataset_with str_upper cfg dbpath t dataset_properties =
   get_dataset_with str_upper cfg dbpath (str_upper t) dataset_properties"
  by (simp add: get_dataset_with_def)

lemma upper_qm9: "upper ''qm9'' = ''QM9''"
  by code_simp

lemma upper_Custom: "upper ''Custom'' = ''CUSTOM''"
  by code_simp

theorem get_dataset_upper_witness:
  "upper (upper ''qm9'') = upper ''qm9'' \<and>
   get_dataset_with upper (custom :: unit config) ''data/qm9.db'' ''qm9'' (Some [''U0'']) =
     get_dataset_with upper custom ''data/qm9.db'' (upper ''qm9'') (Some [''U0'']) \<and>
   get_dataset_with upper (custom :: unit config) ''data/qm9.db'' ''qm9'' (Some [''U0'']) =
     ([LogInfo ''Load QM9 dataset''], Inr (QM9 ''data/qm9.db'' (Some [''U0'']))) \<and>
   upper (upper ''Custom'') = upper ''Custom'' \<and>
   get_dataset_with upper (custom :: unit config) ''foo.bin'' ''Custom'' None =
     get_dataset_with upper custom ''foo.bin'' (upper ''Custom'') None \<and>
   get_dataset_with upper (custom :: unit config) ''foo.bin'' ''Custom'' None =
     ([LogInfo ''Load CUSTOM dataset''], Inl NotImplementedError)"
proof -
  have h1: "upper (upper ''qm9'') = upper ''qm9''"
    by (rule upper_idem)
  have h2: "upper (upper ''Custom'') = upper ''Custom''"
    by (rule upper_idem)
  have r1: "get_dataset_with upper (custom :: unit config) ''data/qm9.db'' ''QM9'' (Some [''U0'']) =
      ([LogInfo ''Load QM9 dataset''], Inr (QM9 ''data/qm9.db'' (Some [''U0''])))"
    by (simp add: get_dataset_with_def upper_QM9)
  have r2: "get_dataset_with upper (custom :: unit config) ''foo.bin'' ''CUSTOM'' None =
      ([LogInfo ''Load CUSTOM dataset''], Inl NotImplementedError)"
    by (simp add: get_dataset_with_def upper_CUSTOM splitext_foo_bin)
  show ?thesis
    using h1 h2
      get_dataset_upper [OF h1, of "custom :: unit config" "''data/qm9.db''" "Some [''U0'']"]
      get_dataset_upper [OF h2, of "custom :: unit config" "''foo.bin''" None]
    by (simp add: upper_qm9 upper_Custom r1 r2)
qed



text \<open>Claim C4. With the tag \<^verbatim>\<open>CUSTOM\<close> and a path whose extension is neither
  \<^verbatim>\<open>.db\<close> nor \<^verbatim>\<open>.xyz\<close> the call raises \<^verbatim>\<open>NotImplementedError\<close>; the only effect
  is the log line, so no conversion ran and no file was written, and no dataset is
  returned.\<close>

theorem get_dataset_custom_unsupported:
  "snd (splitext dbpath) \<notin> {''.db'', ''.xyz''} \<Longrightarrow>
   get_dataset cfg dbpath ''CUSTOM'' dataset_properties =
     ([LogInfo ''Load CUSTOM dataset''], Inl NotImplementedError)"
  by (simp add: get_dataset_CUSTOM)

theorem get_dataset_custom_unsupported_witness:
  "snd (splitext ''foo.bin'') \<notin> {''.db'', ''.xyz''} \<and>
   get_dataset (custom :: unit config) ''foo.bin'' ''CUSTOM'' (Some [''E'']) =
     ([LogInfo ''Load CUSTOM dataset''], Inl NotImplementedError)"
proof -
  have h: "snd (splitext ''foo.bin'') \<notin> {''.db'', ''.xyz''}"
    by (simp add: splitext_foo_bin)
  show ?thesis
    using h get_dataset_custom_unsupported [OF h] by simp
qed

text \<open>Claim C3. With the tag \<^verbatim>\<open>CUSTOM\<close> and a path of extension \<^verbatim>\<open>.xyz\<close>, the path
  is some \<open>file\<close> followed by \<^verbatim>\<open>.xyz\<close>; the call converts the path into
  \<open>file\<close> followed by \<^verbatim>\<open>.db\<close> and then opens that database. With extension
  \<^verbatim>\<open>.db\<close> the call opens the path itself and converts nothing.\<close>

theorem get_dataset_custom_db_xyz:
  "(snd (splitext dbpath) = ''.xyz'' \<longrightarrow>
      (\<exists>file. dbpath = file @ ''.xyz'' \<and>
         get_dataset cfg dbpath ''CUSTOM'' dataset_properties =
           ([LogInfo ''Load CUSTOM dataset'', ExtXyzToDb (file @ ''.db'') dbpath],
            Inr (AtomsData (file @ ''.db'') dataset_properties)))) \<and>
   (snd (splitext dbpath) = ''.db'' \<longrightarrow>
      get_dataset cfg dbpath ''CUSTOM'' dataset_properties =
        ([LogInfo ''Load CUSTOM dataset''], Inr (AtomsData dbpath dataset_properties)))"
proof (intro conjI impI)
  assume ext: "snd (splitext dbpath) = ''.xyz''"
  have "dbpath = fst (splitext dbpath) @ ''.xyz''"
    using splitext_append [of dbpath] by (simp add: ext)
  moreover have "get_dataset cfg dbpath ''CUSTOM'' dataset_properties =
      ([LogInfo ''Load CUSTOM dataset'', ExtXyzToDb (fst (splitext dbpath) @ ''.db'') dbpath],
       Inr (AtomsData (fst (splitext dbpath) @ ''.db'') dataset_properties))"
    using ext by (simp add: get_dataset_CUSTOM)
  ultimately show "\<exists>file. dbpath = file @ ''.xyz'' \<and>
         get_dataset cfg dbpath ''CUSTOM'' dataset_properties =
           ([LogInfo ''Load CUSTOM dataset'', ExtXyzToDb (file @ ''.db'') dbpath],
            Inr (AtomsData (file @ ''.db'') dataset_properties))"
    by blast
next
  assume "snd (splitext dbpath) = ''.db''"
  then show "get_dataset cfg dbpath ''CUSTOM'' dataset_properties =
        ([LogInfo ''Load CUSTOM dataset''], Inr (AtomsData dbpath dataset_properties))"
    by (simp add: get_dataset_CUSTOM)
qed

lemma splitext_foo_xyz: "splitext ''foo.xyz'' = (''foo'', ''.xyz'')"
  by code_simp

lemma splitext_foo_db: "splitext ''foo.db'' = (''foo'', ''.db'')"
  by code_simp

theorem get_dataset_custom_db_xyz_witness:
  "snd (splitext ''foo.xyz'') = ''.xyz'' \<and>
   get_dataset (custom :: unit config) ''foo.xyz'' ''CUSTOM'' (Some [''E'']) =
     ([LogInfo ''Load CUSTOM dataset'', ExtXyzToDb ''foo.db'' ''foo.xyz''],
      Inr (AtomsData ''foo.db'' (Some [''E'']))) \<and>
   snd (splitext ''foo.db'') = ''.db'' \<and>
   get_dataset (custom :: unit config) ''foo.db'' ''CUSTOM'' (Some [''E'']) =
     ([LogInfo ''Load CUSTOM dataset''], Inr (AtomsData ''foo.db'' (Some [''E''])))"
  using get_dataset_custom_db_xyz [of "''foo.xyz''" "custom :: unit config" "Some [''E'']"]
        get_dataset_custom_db_xyz [of "''foo.db''" "custom :: unit config" "Some [''E'']"]
  by (simp add: splitext_foo_xyz splitext_foo_db)

lemma upper_ext_db: "upper ''.db'' = ''.DB''"
  by code_simp

lemma upper_ext_xyz: "upper ''.xyz'' = ''.XYZ''"
  by code_simp

lemma suffix_upper_eq:
  assumes "suffix x p" and "suffix e p" and "upper x = upper e"
  shows "x = e"
proof -
  from assms(3) have "length x = length e"
    using length_upper by metis
  moreover from assms(1,2) have "suffix x e \<or> suffix e x"
    by (rule suffix_same_cases)
  ultimately show ?thesis
    by (auto simp: suffix_def)
qed

lemma suffix_upper: "suffix x e \<Longrightarrow> suffix (upper x) (upper e)"
  unfolding upper_def by (rule map_mono_suffix)

lemma ext_upper_cases:
  assumes "a \<in> {''.DB'', ''.XYZ''}" and "b \<in> {''.DB'', ''.XYZ''}" and "suffix a b \<or> suffix b a"
  shows "a = b"
  using assms by (auto simp: suffix_Cons)

text \<open>Claim C9. The extension is compared as it is written: a path ending in \<open>e\<close>,
  where \<open>e\<close> uppercases to \<^verbatim>\<open>.DB\<close> or \<^verbatim>\<open>.XYZ\<close> without being \<^verbatim>\<open>.db\<close> or
  \<^verbatim>\<open>.xyz\<close> itself, makes the call with tag \<^verbatim>\<open>CUSTOM\<close> raise
  \<^verbatim>\<open>NotImplementedError\<close> with the log line as its only effect.\<close>

theorem get_dataset_custom_extension_case:
  assumes "upper e \<in> {''.DB'', ''.XYZ''}" and "e \<notin> {''.db'', ''.xyz''}"
  shows "get_dataset cfg (pre @ e) ''CUSTOM'' dataset_properties =
           ([LogInfo ''Load CUSTOM dataset''], Inl NotImplementedError)"
proof -
  have "snd (splitext (pre @ e)) \<noteq> x" if x: "x \<in> {''.db'', ''.xyz''}" for x
  proof
    assume ext: "snd (splitext (pre @ e)) = x"
    have sx: "suffix x (pre @ e)"
      using splitext_append [of "pre @ e"] unfolding ext by (metis suffixI)
    have se: "suffix e (pre @ e)"
      by (simp add: suffix_def)
    from sx se have "suffix x e \<or> suffix e x"
      by (rule suffix_same_cases)
    then have "suffix (upper x) (upper e) \<or> suffix (upper e) (upper x)"
      by (auto dest: suffix_upper)
    moreover from x have "upper x \<in> {''.DB'', ''.XYZ''}"
      by (auto simp: upper_ext_db upper_ext_xyz)
    ultimately have "upper x = upper e"
      using assms(1) by (rule ext_upper_cases [rotated 2])
    with sx se have "x = e"
      by (rule suffix_upper_eq)
    with x assms(2) show False
      by simp
  qed
  then have "snd (splitext (pre @ e)) \<noteq> ''.db''" and "snd (splitext (pre @ e)) \<noteq> ''.xyz''"
    by simp_all
  then show ?thesis
    by (simp add: get_dataset_CUSTOM)
qed

lemma upper_ext_DB: "upper ''.DB'' = ''.DB''"
  by code_simp

lemma upper_ext_Xyz: "upper ''.Xyz'' = ''.XYZ''"
  by code_simp

theorem get_dataset_custom_extension_case_witness:
  "upper ''.DB'' \<in> {''.DB'', ''.XYZ''} \<and> ''.DB'' \<notin> {''.db'', ''.xyz''} \<and>
   get_dataset (custom :: unit config) ''foo.DB'' ''CUSTOM'' None =
     ([LogInfo ''Load CUSTOM dataset''], Inl NotImplementedError) \<and>
   upper ''.Xyz'' \<in> {''.DB'', ''.XYZ''} \<and> ''.Xyz'' \<notin> {''.db'', ''.xyz''} \<and>
   get_dataset (custom :: unit config) ''data/mol.Xyz'' ''CUSTOM'' None =
     ([LogInfo ''Load CUSTOM dataset''], Inl NotImplementedError)"
  using get_dataset_custom_extension_case [of "''.DB''" "custom :: unit config" "''foo''" None]
        get_dataset_custom_extension_case [of "''.Xyz''" "custom :: unit config" "''data/mol''" None]
  by (simp add: upper_ext_DB upper_ext_Xyz)

end
